theory Spec2Isabelle
  imports Main "HOL-Library.Char_ord" "HOL-Library.Multiset"
begin

section \<open>Data model (internal/models/user.go)\<close>

text \<open>
  Instants are whole nanoseconds since the Unix epoch, the resolution of Go's
  \<^verbatim>\<open>time.Time\<close>. Go strings are byte sequences, as \<^typ>\<open>string\<close> is; \<^verbatim>\<open>len(s)\<close> is
  \<^term>\<open>length s\<close>. Go's \<^verbatim>\<open>int\<close> is modelled by \<^typ>\<open>int\<close>; the one place where its 64-bit
  range matters (\<^verbatim>\<open>strconv.Atoi\<close>) writes the range check out.
\<close>

type_synonym instant = int

record User =
  ID :: int
  Email :: string
  Username :: string
  PasswordHash :: string
  FirstName :: string
  LastName :: string
  CreatedAt :: instant
  UpdatedAt :: instant

record RegisterRequest =
  reg_Email :: string
  reg_Username :: string
  reg_Password :: string
  reg_FirstName :: string
  reg_LastName :: string

record LoginRequest =
  login_Email :: string
  login_Password :: string

record UpdateUserRequest =
  upd_Email :: string
  upd_Username :: string
  upd_FirstName :: string
  upd_LastName :: string


section \<open>The e-mail pattern: regular expressions over bytes\<close>

text \<open>
  \<^verbatim>\<open>isValidEmail\<close> compiles a pattern and runs \<^verbatim>\<open>MatchString\<close>. The pattern is anchored
  at both ends (\<^verbatim>\<open>^\<close> ... \<^verbatim>\<open>$\<close>, no flags), so \<^verbatim>\<open>MatchString\<close> decides whether the
  whole input belongs to the pattern's language. Every character class of the pattern
  holds ASCII characters only, so a byte outside ASCII never matches, whatever rune it
  is part of. A class is a list of inclusive ranges.
\<close>

datatype regex =
  Null
  | Eps
  | Class "(char \<times> char) list"
  | Alt regex regex
  | Concat regex regex
  | Star regex

fun in_class :: "(char \<times> char) list \<Rightarrow> char \<Rightarrow> bool" where
  "in_class [] c = False"
| "in_class ((lo, hi) # rs) c = ((lo \<le> c \<and> c \<le> hi) \<or> in_class rs c)"

definition Lit :: "char \<Rightarrow> regex" where
  "Lit c = Class [(c, c)]"

definition Plus :: "regex \<Rightarrow> regex" where
  "Plus r = Concat r (Star r)"

definition AtLeast2 :: "regex \<Rightarrow> regex" where
  "AtLeast2 r = Concat r (Concat r (Star r))"

text \<open>The language of a pattern: what it means for a string to match it.\<close>

inductive star_of :: "string set \<Rightarrow> string \<Rightarrow> bool" for A :: "string set" where
  star_nil: "star_of A []"
| star_app: "u \<in> A \<Longrightarrow> u \<noteq> [] \<Longrightarrow> star_of A v \<Longrightarrow> star_of A (u @ v)"

fun lang :: "regex \<Rightarrow> string set" where
  "lang Null = {}"
| "lang Eps = {[]}"
| "lang (Class rs) = {[c] | c. in_class rs c}"
| "lang (Alt r s) = lang r \<union> lang s"
| "lang (Concat r s) = {u @ v | u v. u \<in> lang r \<and> v \<in> lang s}"
| "lang (Star r) = {w. star_of (lang r) w}"

text \<open>The matcher: the derivative of the pattern by each byte of the input in turn.\<close>

fun nullable :: "regex \<Rightarrow> bool" where
  "nullable Null = False"
| "nullable Eps = True"
| "nullable (Class rs) = False"
| "nullable (Alt r s) = (nullable r \<or> nullable s)"
| "nullable (Concat r s) = (nullable r \<and> nullable s)"
| "nullable (Star r) = True"

fun deriv :: "char \<Rightarrow> regex \<Rightarrow> regex" where
  "deriv c Null = Null"
| "deriv c Eps = Null"
| "deriv c (Class rs) = (if in_class rs c then Eps else Null)"
| "deriv c (Alt r s) = Alt (deriv c r) (deriv c s)"
| "deriv c (Concat r s) =
     (if nullable r then Alt (Concat (deriv c r) s) (deriv c s)
      else Concat (deriv c r) s)"
| "deriv c (Star r) = Concat (deriv c r) (Star r)"

fun MatchString :: "regex \<Rightarrow> string \<Rightarrow> bool" where
  "MatchString r [] = nullable r"
| "MatchString r (c # cs) = MatchString (deriv c r) cs"

text \<open>
  \<^verbatim>\<open>^[a-zA-Z0-9._%+-]+@[a-zA-Z0-9.-]+\.[a-zA-Z]{2,}$\<close>
\<close>

definition local_class :: "(char \<times> char) list" where
  "local_class =
     [(CHR ''a'', CHR ''z''), (CHR ''A'', CHR ''Z''), (CHR ''0'', CHR ''9''),
      (CHR ''.'', CHR ''.''), (CHR ''_'', CHR ''_''), (CHR ''%'', CHR ''%''),
      (CHR ''+'', CHR ''+''), (CHR ''-'', CHR ''-'')]"

definition domain_class :: "(char \<times> char) list" where
  "domain_class =
     [(CHR ''a'', CHR ''z''), (CHR ''A'', CHR ''Z''), (CHR ''0'', CHR ''9''),
      (CHR ''.'', CHR ''.''), (CHR ''-'', CHR ''-'')]"

definition letter_class :: "(char \<times> char) list" where
  "letter_class = [(CHR ''a'', CHR ''z''), (CHR ''A'', CHR ''Z'')]"

definition emailRegex :: regex where
  "emailRegex =
     Concat (Plus (Class local_class))
       (Concat (Lit (CHR ''@''))
         (Concat (Plus (Class domain_class))
           (Concat (Lit (CHR ''.''))
             (AtLeast2 (Class letter_class)))))"

definition isValidEmail :: "string \<Rightarrow> bool" where
  "isValidEmail email = MatchString emailRegex email"


section \<open>Request validation (RegisterRequest.Validate)\<close>

text \<open>\<^verbatim>\<open>Validate\<close> returns \<^verbatim>\<open>nil\<close> (\<^term>\<open>None\<close>) or an error carrying a message.\<close>

definition Validate :: "RegisterRequest \<Rightarrow> string option" where
  "Validate r =
     (if reg_Email r = [] then Some ''email is required''
      else if \<not> isValidEmail (reg_Email r) then Some ''invalid email format''
      else if reg_Username r = [] then Some ''username is required''
      else if length (reg_Username r) < 3 then Some ''username must be at least 3 characters''
      else if reg_Password r = [] then Some ''password is required''
      else if length (reg_Password r) < 6 then Some ''password must be at least 6 characters''
      else None)"

text \<open>
  The specification's reading of the same validator: six rules in a fixed order, each
  with its message; the outcome is the message of the first rule that is violated, and
  success when none is. Rule 2 is stated on the pattern's language.
\<close>

definition register_rules :: "((RegisterRequest \<Rightarrow> bool) \<times> string) list" where
  "register_rules =
     [(\<lambda>r. reg_Email r \<noteq> [], ''email is required''),
      (\<lambda>r. reg_Email r \<in> lang emailRegex, ''invalid email format''),
      (\<lambda>r. reg_Username r \<noteq> [], ''username is required''),
      (\<lambda>r. 3 \<le> length (reg_Username r), ''username must be at least 3 characters''),
      (\<lambda>r. reg_Password r \<noteq> [], ''password is required''),
      (\<lambda>r. 6 \<le> length (reg_Password r), ''password must be at least 6 characters'')]"

fun first_violation :: "(('a \<Rightarrow> bool) \<times> string) list \<Rightarrow> 'a \<Rightarrow> string option" where
  "first_violation [] x = None"
| "first_violation ((holds, msg) # rules) x =
     (if holds x then first_violation rules x else Some msg)"


section \<open>Path identifiers (strconv.Atoi)\<close>

text \<open>
  \<^verbatim>\<open>strconv.Atoi\<close> accepts an optional sign followed by one or more decimal digits and
  nothing else, and reports a range error when the value does not fit the 64-bit
  \<^verbatim>\<open>int\<close>. Either error makes the handlers' \<^verbatim>\<open>err != nil\<close> true; \<^term>\<open>None\<close> stands for
  both.
\<close>

definition digit_value :: "char \<Rightarrow> int option" where
  "digit_value ch =
     (if CHR ''0'' \<le> ch \<and> ch \<le> CHR ''9'' then Some (of_char ch - 48) else None)"

fun parse_digits :: "int \<Rightarrow> string \<Rightarrow> int option" where
  "parse_digits n [] = Some n"
| "parse_digits n (ch # s) =
     (case digit_value ch of
        None \<Rightarrow> None
      | Some d \<Rightarrow> parse_digits (n * 10 + d) s)"

fun strip_sign :: "string \<Rightarrow> bool \<times> string" where
  "strip_sign [] = (False, [])"
| "strip_sign (ch # s) =
     (if ch = CHR ''-'' then (True, s)
      else if ch = CHR ''+'' then (False, s)
      else (False, ch # s))"

definition Atoi :: "string \<Rightarrow> int option" where
  "Atoi s0 =
     (case strip_sign s0 of
        (neg, s) \<Rightarrow>
          if s = [] then None
          else (case parse_digits 0 s of
                  None \<Rightarrow> None
                | Some n \<Rightarrow>
                    let v = (if neg then - n else n)
                    in if - (2 ^ 63) \<le> v \<and> v < 2 ^ 63 then Some v else None))"

text \<open>
  The syntax \<^verbatim>\<open>Atoi\<close> accepts, stated on its own: an optional sign, then at least one
  character, all of them decimal digits.
\<close>

definition is_digit :: "char \<Rightarrow> bool" where
  "is_digit ch = (CHR ''0'' \<le> ch \<and> ch \<le> CHR ''9'')"

definition decimal_syntax :: "string \<Rightarrow> bool" where
  "decimal_syntax s0 =
     (case strip_sign s0 of (neg, s) \<Rightarrow> s \<noteq> [] \<and> list_all is_digit s)"


section \<open>Tokens (utils: GenerateToken, ValidateToken)\<close>

text \<open>
  A compact token is a header naming the signing method, the claims, and a signature
  over both. A token string is modelled by what parsing it yields: \<open>Malformed\<close> when it
  does not parse, else its three parts. Serialising and parsing a token are inverse to
  each other, so the string \<^verbatim>\<open>SignedString\<close> returns is the \<open>Compact\<close> value built here.
  The keyed hash is a parameter \<open>mac\<close>: method, key and signing input to signature;
  verification recomputes it and compares.
\<close>

datatype SigningMethod = HS256 | HS384 | HS512 | OtherMethod string

record Claims =
  UserID :: int
  ExpiresAt :: "instant option"
  NotBefore :: "instant option"
  IssuedAt :: "instant option"

datatype token_string = Malformed | Compact SigningMethod Claims string

type_synonym mac = "SigningMethod \<Rightarrow> string \<Rightarrow> SigningMethod \<times> Claims \<Rightarrow> string"

datatype token_error =
  SecretNotSet
  | TokenMalformed
  | InvalidSigningMethod
  | SignatureInvalid
  | TokenExpired
  | TokenNotValidYet

definition Second :: int where
  "Second = 1000000000"

definition Hour :: int where
  "Hour = 3600 * Second"

text \<open>\<^verbatim>\<open>jwt.NewNumericDate\<close> truncates the instant to whole seconds.\<close>

definition NewNumericDate :: "instant \<Rightarrow> instant" where
  "NewNumericDate t = t - t mod Second"

fun is_HMAC :: "SigningMethod \<Rightarrow> bool" where
  "is_HMAC (OtherMethod name) = False"
| "is_HMAC m = True"

text \<open>
  \<^verbatim>\<open>GenerateToken\<close> reads the environment variable and calls \<^verbatim>\<open>time.Now()\<close> twice:
  \<open>now1\<close> is the reading that \<^verbatim>\<open>ExpiresAt\<close> is computed from, \<open>now2\<close> the later reading
  stored as \<^verbatim>\<open>IssuedAt\<close>. Signing with a byte-slice key under HS256 cannot fail.
\<close>

definition GenerateToken :: "mac \<Rightarrow> string \<Rightarrow> instant \<Rightarrow> instant \<Rightarrow> int \<Rightarrow> token_error + token_string" where
  "GenerateToken hmac secretKey now1 now2 userID =
     (if secretKey = [] then Inl SecretNotSet
      else
        let claims = \<lparr>UserID = userID,
                      ExpiresAt = Some (NewNumericDate (now1 + 24 * Hour)),
                      NotBefore = None,
                      IssuedAt = Some (NewNumericDate now2)\<rparr>
        in Inr (Compact HS256 claims (hmac HS256 secretKey (HS256, claims))))"

text \<open>
  \<^verbatim>\<open>ValidateToken\<close>: \<^verbatim>\<open>jwt.ParseWithClaims\<close> parses the string, asks the key function
  (which refuses every method that is not an HMAC), verifies the signature, then
  validates the registered claims at the current instant \<open>now\<close>: a token with an
  expiry is valid only while \<open>now\<close> is before it, one with a not-before only from it on.
  \<^verbatim>\<open>IssuedAt\<close> is not validated (the parser is built without that option).
\<close>

definition ValidateToken :: "mac \<Rightarrow> string \<Rightarrow> instant \<Rightarrow> token_string \<Rightarrow> token_error + int" where
  "ValidateToken hmac secretKey now tokenString =
     (if secretKey = [] then Inl SecretNotSet
      else
        (case tokenString of
           Malformed \<Rightarrow> Inl TokenMalformed
         | Compact m claims sig \<Rightarrow>
             if \<not> is_HMAC m then Inl InvalidSigningMethod
             else if hmac m secretKey (m, claims) \<noteq> sig then Inl SignatureInvalid
             else if (case ExpiresAt claims of None \<Rightarrow> False | Some e \<Rightarrow> \<not> now < e)
               then Inl TokenExpired
             else if (case NotBefore claims of None \<Rightarrow> False | Some n \<Rightarrow> now < n)
               then Inl TokenNotValidYet
             else Inr (UserID claims)))"


section \<open>JSON responses\<close>

text \<open>
  A JSON document as \<^verbatim>\<open>encoding/json\<close> writes it. \<open>JTime\<close> is the JSON string holding the
  RFC 3339 text of an instant, \<open>JToken\<close> the JSON string holding a token's compact
  serialisation. An object keeps its members in the order they are written.
\<close>

datatype json =
  JNumber int
  | JString string
  | JTime instant
  | JToken token_string
  | JArray "json list"
  | JObject "(string \<times> json) list"

fun json_keys :: "json \<Rightarrow> string list" where
  "json_keys (JNumber n) = []"
| "json_keys (JString s) = []"
| "json_keys (JTime t) = []"
| "json_keys (JToken t) = []"
| "json_keys (JArray xs) = concat (map json_keys xs)"
| "json_keys (JObject kvs) = concat (map (\<lambda>kv. fst kv # json_keys (snd kv)) kvs)"

text \<open>
  The encoding of a \<^verbatim>\<open>User\<close> follows its struct tags: \<^verbatim>\<open>PasswordHash\<close> is tagged
  \<^verbatim>\<open>json:"-"\<close> and is not written; the two names are tagged \<^verbatim>\<open>omitempty\<close>.
\<close>

definition omitempty :: "string \<Rightarrow> string \<Rightarrow> (string \<times> json) list" where
  "omitempty key v = (if v = [] then [] else [(key, JString v)])"

definition User_json :: "User \<Rightarrow> json" where
  "User_json u =
     JObject
       ([(''id'', JNumber (ID u)),
         (''email'', JString (Email u)),
         (''username'', JString (Username u))]
        @ omitempty ''first_name'' (FirstName u)
        @ omitempty ''last_name'' (LastName u)
        @ [(''created_at'', JTime (CreatedAt u)),
           (''updated_at'', JTime (UpdatedAt u))])"

definition LoginResponse_json :: "token_string \<Rightarrow> User \<Rightarrow> json" where
  "LoginResponse_json token user = JObject [(''token'', JToken token), (''user'', User_json user)]"

definition ErrorResponse_json :: "string \<Rightarrow> json" where
  "ErrorResponse_json msg = JObject [(''error'', JString msg)]"

record response =
  status :: nat
  body :: json

definition error_response :: "nat \<Rightarrow> string \<Rightarrow> response" where
  "error_response code msg = \<lparr>status = code, body = ErrorResponse_json msg\<rparr>"

text \<open>A handler that never calls \<^verbatim>\<open>WriteHeader\<close> answers with status 200.\<close>

definition ok_response :: "json \<Rightarrow> response" where
  "ok_response doc = \<lparr>status = 200, body = doc\<rparr>"


section \<open>The store: table \<^verbatim>\<open>users\<close>\<close>

text \<open>
  A row has the columns of the schema. \<^verbatim>\<open>first_name\<close> and \<^verbatim>\<open>last_name\<close> are declared
  without \<^verbatim>\<open>NOT NULL\<close>, so they hold a string or \<^verbatim>\<open>NULL\<close> (\<^term>\<open>None\<close>); the timestamp
  columns take their default and are never written as \<^verbatim>\<open>NULL\<close> by any statement here.
  The store is the table's rows and the last value drawn from the \<^verbatim>\<open>SERIAL\<close> sequence
  of \<^verbatim>\<open>id\<close>.

  Each handler issues one statement. Whether the store fails that statement for an
  internal reason (it cannot be reached, it refuses a value, ...) is the environment's
  choice, the handlers' parameter \<open>fault\<close>; a failed statement changes nothing.
\<close>

record user_row =
  row_id :: int
  row_email :: string
  row_username :: string
  row_password_hash :: string
  row_first_name :: "string option"
  row_last_name :: "string option"
  row_created_at :: instant
  row_updated_at :: instant

record store =
  users_rows :: "user_row list"
  users_id_seq :: int

datatype db_error = ErrNoRows | UniqueViolation | StorageFailure | ScanError

text \<open>
  \<^verbatim>\<open>Scan\<close> into the seven (or, for Login, eight) fields of a \<^verbatim>\<open>User\<close>: converting
  \<^verbatim>\<open>NULL\<close> to a Go \<^verbatim>\<open>string\<close> is an error. Where \<^verbatim>\<open>password_hash\<close> is not selected the
  field keeps its zero value.
\<close>

definition scan_user :: "user_row \<Rightarrow> db_error + User" where
  "scan_user r =
     (case row_first_name r of
        None \<Rightarrow> Inl ScanError
      | Some f \<Rightarrow>
          (case row_last_name r of
             None \<Rightarrow> Inl ScanError
           | Some l \<Rightarrow>
               Inr \<lparr>ID = row_id r, Email = row_email r, Username = row_username r,
                    PasswordHash = [], FirstName = f, LastName = l,
                    CreatedAt = row_created_at r, UpdatedAt = row_updated_at r\<rparr>))"

definition scan_user_with_hash :: "user_row \<Rightarrow> db_error + User" where
  "scan_user_with_hash r =
     (case scan_user r of
        Inl e \<Rightarrow> Inl e
      | Inr u \<Rightarrow> Inr (u\<lparr>PasswordHash := row_password_hash r\<rparr>))"

text \<open>\<^verbatim>\<open>QueryRow(...).Scan\<close> on a result set: no row is \<^verbatim>\<open>sql.ErrNoRows\<close>, else the first row is scanned.\<close>

definition scan_first :: "(user_row \<Rightarrow> db_error + User) \<Rightarrow> user_row list \<Rightarrow> db_error + User" where
  "scan_first scan rs = (case rs of [] \<Rightarrow> Inl ErrNoRows | r # rest \<Rightarrow> scan r)"

text \<open>\<^verbatim>\<open>SELECT ... FROM users WHERE id = $1\<close>\<close>

definition select_by_id :: "bool \<Rightarrow> store \<Rightarrow> int \<Rightarrow> db_error + User" where
  "select_by_id fault st i =
     (if fault then Inl StorageFailure
      else scan_first scan_user (filter (\<lambda>r. row_id r = i) (users_rows st)))"

text \<open>\<^verbatim>\<open>SELECT ..., password_hash, ... FROM users WHERE email = $1\<close>\<close>

definition select_by_email :: "bool \<Rightarrow> store \<Rightarrow> string \<Rightarrow> db_error + User" where
  "select_by_email fault st e =
     (if fault then Inl StorageFailure
      else scan_first scan_user_with_hash (filter (\<lambda>r. row_email r = e) (users_rows st)))"

text \<open>
  \<^verbatim>\<open>SELECT ... FROM users ORDER BY created_at DESC\<close>. The order among rows of equal
  \<^verbatim>\<open>created_at\<close> is the store's to choose; the model keeps their table order.
\<close>

definition select_all_ordered :: "store \<Rightarrow> user_row list" where
  "select_all_ordered st = sort_key (\<lambda>r. - row_created_at r) (users_rows st)"

text \<open>
  \<^verbatim>\<open>INSERT INTO users (email, username, password_hash, first_name, last_name) ...
  RETURNING ...\<close>: the id is drawn from the sequence (a draw is not undone when the
  insert then fails), both timestamps default to the store's current time, and the
  primary key and the two \<^verbatim>\<open>UNIQUE\<close> columns refuse a duplicate.
\<close>

definition insert_user ::
  "bool \<Rightarrow> instant \<Rightarrow> store \<Rightarrow> string \<Rightarrow> string \<Rightarrow> string \<Rightarrow> string \<Rightarrow> string \<Rightarrow> (db_error + User) \<times> store" where
  "insert_user fault db_now st e u h f l =
     (if fault then (Inl StorageFailure, st)
      else
        let i = users_id_seq st + 1;
            st1 = st\<lparr>users_id_seq := i\<rparr>
        in if list_ex (\<lambda>r. row_id r = i \<or> row_email r = e \<or> row_username r = u) (users_rows st)
           then (Inl UniqueViolation, st1)
           else
             let r = \<lparr>row_id = i, row_email = e, row_username = u, row_password_hash = h,
                      row_first_name = Some f, row_last_name = Some l,
                      row_created_at = db_now, row_updated_at = db_now\<rparr>
             in (scan_user r, st1\<lparr>users_rows := users_rows st @ [r]\<rparr>))"

text \<open>
  \<^verbatim>\<open>UPDATE users SET first_name = COALESCE(NULLIF($1, ''), first_name),
  last_name = COALESCE(NULLIF($2, ''), last_name), updated_at = NOW()
  WHERE id = $3 RETURNING ...\<close>
\<close>

definition NULLIF :: "string \<Rightarrow> string \<Rightarrow> string option" where
  "NULLIF a b = (if a = b then None else Some a)"

definition COALESCE :: "string option \<Rightarrow> string option \<Rightarrow> string option" where
  "COALESCE a b = (case a of Some v \<Rightarrow> Some v | None \<Rightarrow> b)"

definition update_row :: "instant \<Rightarrow> string \<Rightarrow> string \<Rightarrow> int \<Rightarrow> user_row \<Rightarrow> user_row" where
  "update_row db_now f l i r =
     (if row_id r = i
      then r\<lparr>row_first_name := COALESCE (NULLIF f []) (row_first_name r),
             row_last_name := COALESCE (NULLIF l []) (row_last_name r),
             row_updated_at := db_now\<rparr>
      else r)"

definition update_names ::
  "bool \<Rightarrow> instant \<Rightarrow> store \<Rightarrow> string \<Rightarrow> string \<Rightarrow> int \<Rightarrow> (db_error + User) \<times> store" where
  "update_names fault db_now st f l i =
     (if fault then (Inl StorageFailure, st)
      else
        let st1 = st\<lparr>users_rows := map (update_row db_now f l i) (users_rows st)\<rparr>
        in (scan_first scan_user (filter (\<lambda>r. row_id r = i) (users_rows st1)), st1))"

text \<open>\<^verbatim>\<open>DELETE FROM users WHERE id = $1\<close>, with the number of rows affected.\<close>

definition delete_by_id :: "bool \<Rightarrow> store \<Rightarrow> int \<Rightarrow> (db_error + nat) \<times> store" where
  "delete_by_id fault st i =
     (if fault then (Inl StorageFailure, st)
      else (Inr (length (filter (\<lambda>r. row_id r = i) (users_rows st))),
            st\<lparr>users_rows := filter (\<lambda>r. row_id r \<noteq> i) (users_rows st)\<rparr>))"


section \<open>Handlers: users\<close>

text \<open>
  \<^verbatim>\<open>GetUsers\<close>. The query may fail; its result may also end early when the connection
  breaks while rows are read: \<^verbatim>\<open>rows.Next()\<close> then returns false and the handler, which
  does not look at \<^verbatim>\<open>rows.Err()\<close>, answers with the rows read so far. The loop appends the
  rows that scan and skips the others.
\<close>

datatype query_fault = NoFault | QueryFails | BreaksAfter nat

fun scan_loop :: "User list \<Rightarrow> user_row list \<Rightarrow> User list" where
  "scan_loop users [] = users"
| "scan_loop users (r # rows) =
     (case scan_user r of
        Inl err \<Rightarrow> scan_loop users rows
      | Inr user \<Rightarrow> scan_loop (users @ [user]) rows)"

definition GetUsers :: "query_fault \<Rightarrow> store \<Rightarrow> response" where
  "GetUsers fault st =
     (case fault of
        QueryFails \<Rightarrow> error_response 500 ''Failed to fetch users''
      | NoFault \<Rightarrow> ok_response (JArray (map User_json (scan_loop [] (select_all_ordered st))))
      | BreaksAfter n \<Rightarrow>
          ok_response (JArray (map User_json (scan_loop [] (take n (select_all_ordered st))))))"

text \<open>\<^verbatim>\<open>GetUser\<close>: \<open>idstr\<close> is the path variable \<^verbatim>\<open>{id}\<close>.\<close>

definition GetUser :: "bool \<Rightarrow> store \<Rightarrow> string \<Rightarrow> response" where
  "GetUser fault st idstr =
     (case Atoi idstr of
        None \<Rightarrow> error_response 400 ''Invalid user ID''
      | Some i \<Rightarrow>
          (case select_by_id fault st i of
             Inl err \<Rightarrow>
               if err = ErrNoRows then error_response 404 ''User not found''
               else error_response 500 ''Database error''
           | Inr user \<Rightarrow> ok_response (User_json user)))"

text \<open>
  \<^verbatim>\<open>GetCurrentUser\<close>: \<open>ctx\<close> is the request context's \<^verbatim>\<open>"userID"\<close> value when it is an
  \<^verbatim>\<open>int\<close> (the authentication middleware stores the token's subject there).
\<close>

definition GetCurrentUser :: "bool \<Rightarrow> store \<Rightarrow> int option \<Rightarrow> response" where
  "GetCurrentUser fault st ctx =
     (case ctx of
        None \<Rightarrow> error_response 401 ''Unauthorized''
      | Some userID \<Rightarrow>
          (case select_by_id fault st userID of
             Inl err \<Rightarrow> error_response 500 ''Failed to fetch user''
           | Inr user \<Rightarrow> ok_response (User_json user)))"

text \<open>
  \<^verbatim>\<open>UpdateUser\<close>: \<open>reqbody\<close> is the decoded request body, \<^term>\<open>None\<close> when decoding
  fails. The decoded \<^verbatim>\<open>Email\<close> and \<^verbatim>\<open>Username\<close> are not used.
\<close>

definition UpdateUser ::
  "bool \<Rightarrow> instant \<Rightarrow> store \<Rightarrow> int option \<Rightarrow> string \<Rightarrow> UpdateUserRequest option \<Rightarrow> response \<times> store" where
  "UpdateUser fault db_now st ctx idstr reqbody =
     (case Atoi idstr of
        None \<Rightarrow> (error_response 400 ''Invalid user ID'', st)
      | Some i \<Rightarrow>
          if ctx \<noteq> Some i
          then (error_response 403 ''You can only update your own profile'', st)
          else
            (case reqbody of
               None \<Rightarrow> (error_response 400 ''Invalid request body'', st)
             | Some req \<Rightarrow>
                 (case update_names fault db_now st (upd_FirstName req) (upd_LastName req) i of
                    (Inl err, st1) \<Rightarrow> (error_response 500 ''Failed to update user'', st1)
                  | (Inr user, st1) \<Rightarrow> (ok_response (User_json user), st1))))"

definition DeleteUser :: "bool \<Rightarrow> store \<Rightarrow> int option \<Rightarrow> string \<Rightarrow> response \<times> store" where
  "DeleteUser fault st ctx idstr =
     (case Atoi idstr of
        None \<Rightarrow> (error_response 400 ''Invalid user ID'', st)
      | Some i \<Rightarrow>
          if ctx \<noteq> Some i
          then (error_response 403 ''You can only delete your own account'', st)
          else
            (case delete_by_id fault st i of
               (Inl err, st1) \<Rightarrow> (error_response 500 ''Failed to delete user'', st1)
             | (Inr rowsAffected, st1) \<Rightarrow>
                 if rowsAffected = 0 then (error_response 404 ''User not found'', st1)
                 else (ok_response (JObject [(''message'', JString ''User deleted successfully'')]), st1)))"


section \<open>Handlers: authentication\<close>

text \<open>
  The password hasher (\<^verbatim>\<open>utils.HashPassword\<close>, \<^verbatim>\<open>utils.CheckPassword\<close>) is a parameter
  of the two handlers: \<open>HashPassword\<close> returns the hash or fails (\<^term>\<open>None\<close>).
\<close>

definition Register ::
  "(string \<Rightarrow> string option) \<Rightarrow> mac \<Rightarrow> string \<Rightarrow> instant \<Rightarrow> instant \<Rightarrow>
   bool \<Rightarrow> instant \<Rightarrow> store \<Rightarrow> RegisterRequest option \<Rightarrow> response \<times> store" where
  "Register HashPassword hmac secretKey now1 now2 fault db_now st reqbody =
     (case reqbody of
        None \<Rightarrow> (error_response 400 ''Invalid request body'', st)
      | Some req \<Rightarrow>
          (case Validate req of
             Some msg \<Rightarrow> (error_response 400 msg, st)
           | None \<Rightarrow>
               (case HashPassword (reg_Password req) of
                  None \<Rightarrow> (error_response 500 ''Failed to process password'', st)
                | Some hashedPassword \<Rightarrow>
                    (case insert_user fault db_now st (reg_Email req) (reg_Username req)
                            hashedPassword (reg_FirstName req) (reg_LastName req) of
                       (Inl err, st1) \<Rightarrow>
                         (error_response 409 ''Email or username already exists'', st1)
                     | (Inr user, st1) \<Rightarrow>
                         (case GenerateToken hmac secretKey now1 now2 (ID user) of
                            Inl err \<Rightarrow> (error_response 500 ''Failed to generate token'', st1)
                          | Inr token \<Rightarrow>
                              (\<lparr>status = 201, body = LoginResponse_json token user\<rparr>, st1))))))"

definition Login ::
  "(string \<Rightarrow> string \<Rightarrow> bool) \<Rightarrow> mac \<Rightarrow> string \<Rightarrow> instant \<Rightarrow> instant \<Rightarrow>
   bool \<Rightarrow> store \<Rightarrow> LoginRequest option \<Rightarrow> response" where
  "Login CheckPassword hmac secretKey now1 now2 fault st reqbody =
     (case reqbody of
        None \<Rightarrow> error_response 400 ''Invalid request body''
      | Some req \<Rightarrow>
          if login_Email req = [] \<or> login_Password req = []
          then error_response 400 ''Email and password are required''
          else
            (case select_by_email fault st (login_Email req) of
               Inl err \<Rightarrow>
                 if err = ErrNoRows then error_response 401 ''Invalid email or password''
                 else error_response 500 ''Database error''
             | Inr user \<Rightarrow>
                 if \<not> CheckPassword (PasswordHash user) (login_Password req)
                 then error_response 401 ''Invalid email or password''
                 else
                   (case GenerateToken hmac secretKey now1 now2 (ID user) of
                      Inl err \<Rightarrow> error_response 500 ''Failed to generate token''
                    | Inr token \<Rightarrow> ok_response (LoginResponse_json token user))))"


section \<open>Keys of the responses\<close>

text \<open>The keys a \<^verbatim>\<open>User\<close> object may carry, and the keys any response may carry.\<close>

definition user_keys :: "string set" where
  "user_keys = {''id'', ''email'', ''username'', ''first_name'', ''last_name'', ''created_at'', ''updated_at''}"

definition response_keys :: "string set" where
  "response_keys = {''error'', ''message'', ''token'', ''user''} \<union> user_keys"


section \<open>Sample data\<close>

text \<open>
  Rows, stores and requests on which the handlers are run below, with stand-ins for the
  keyed hash and the password hasher.
\<close>

definition alice :: user_row where
  "alice = \<lparr>row_id = 1, row_email = ''alice@example.com'', row_username = ''alice'',
            row_password_hash = ''$2a$10$hash'', row_first_name = Some ''Alice'',
            row_last_name = Some ''Liddell'', row_created_at = 1000, row_updated_at = 1000\<rparr>"

definition store1 :: store where
  "store1 = \<lparr>users_rows = [alice], users_id_seq = 1\<rparr>"

definition rename_req :: UpdateUserRequest where
  "rename_req = \<lparr>upd_Email = ''eve@example.com'', upd_Username = ''eve'',
                  upd_FirstName = [], upd_LastName = ''Pleasance''\<rparr>"

definition alice_renamed :: User where
  "alice_renamed = \<lparr>ID = 1, Email = ''alice@example.com'', Username = ''alice'',
       PasswordHash = [], FirstName = ''Alice'', LastName = ''Pleasance'',
       CreatedAt = 1000, UpdatedAt = 5000\<rparr>"

definition toy_mac :: mac where
  "toy_mac m key input = rev key"

definition toy_hash :: "string \<Rightarrow> string option" where
  "toy_hash password = Some (''$2a$10$'' @ rev password)"

definition register_req :: RegisterRequest where
  "register_req = \<lparr>reg_Email = ''a@b.com'', reg_Username = ''abc'', reg_Password = ''secret1'',
                    reg_FirstName = [], reg_LastName = []\<rparr>"

definition toy_check :: "string \<Rightarrow> string \<Rightarrow> bool" where
  "toy_check hash password = (hash = ''$2a$10$'' @ rev password)"

definition bob :: user_row where
  "bob = \<lparr>row_id = 2, row_email = ''bob@example.com'', row_username = ''bob'',
          row_password_hash = ''$2a$10$drowssap'', row_first_name = Some ''Bob'',
          row_last_name = None, row_created_at = 3000, row_updated_at = 3000\<rparr>"

definition carol :: user_row where
  "carol = \<lparr>row_id = 3, row_email = ''carol@example.com'', row_username = ''carol'',
            row_password_hash = ''$2a$10$terces'', row_first_name = Some [],
            row_last_name = Some [], row_created_at = 2000, row_updated_at = 2500\<rparr>"

definition store3 :: store where
  "store3 = \<lparr>users_rows = [alice, bob, carol], users_id_seq = 3\<rparr>"

definition alice_user :: User where
  "alice_user = \<lparr>ID = 1, Email = ''alice@example.com'', Username = ''alice'',
       PasswordHash = [], FirstName = ''Alice'', LastName = ''Liddell'',
       CreatedAt = 1000, UpdatedAt = 1000\<rparr>"

definition carol_user :: User where
  "carol_user = \<lparr>ID = 3, Email = ''carol@example.com'', Username = ''carol'',
       PasswordHash = [], FirstName = [], LastName = [],
       CreatedAt = 2000, UpdatedAt = 2500\<rparr>"


section \<open>Correctness of the matcher\<close>

lemma nullable_iff: "nullable r \<longleftrightarrow> [] \<in> lang r"
  by (induction r) (auto intro: star_of.intros)

lemma star_of_cons_iff:
  "star_of A (c # w) \<longleftrightarrow> (\<exists>u v. w = u @ v \<and> c # u \<in> A \<and> star_of A v)"
proof
  assume "star_of A (c # w)"
  then show "\<exists>u v. w = u @ v \<and> c # u \<in> A \<and> star_of A v"
  proof (cases rule: star_of.cases)
    case (star_app u v)
    then show ?thesis by (cases u) auto
  qed
next
  assume "\<exists>u v. w = u @ v \<and> c # u \<in> A \<and> star_of A v"
  then obtain u v where "w = u @ v" "c # u \<in> A" "star_of A v" by blast
  then show "star_of A (c # w)"
    using star_app [of "c # u" A v] by simp
qed

lemma lang_Concat_Cons:
  "c # w \<in> lang (Concat r s) \<longleftrightarrow>
     (\<exists>u v. w = u @ v \<and> c # u \<in> lang r \<and> v \<in> lang s) \<or> ([] \<in> lang r \<and> c # w \<in> lang s)"
proof
  assume "c # w \<in> lang (Concat r s)"
  then obtain u v where uv: "c # w = u @ v" "u \<in> lang r" "v \<in> lang s" by auto
  show "(\<exists>u v. w = u @ v \<and> c # u \<in> lang r \<and> v \<in> lang s) \<or> ([] \<in> lang r \<and> c # w \<in> lang s)"
  proof (cases u)
    case Nil
    with uv show ?thesis by simp
  next
    case (Cons a u')
    with uv have "w = u' @ v" "c # u' \<in> lang r" by auto
    with uv show ?thesis by blast
  qed
next
  assume "(\<exists>u v. w = u @ v \<and> c # u \<in> lang r \<and> v \<in> lang s) \<or> ([] \<in> lang r \<and> c # w \<in> lang s)"
  then show "c # w \<in> lang (Concat r s)"
  proof
    assume "\<exists>u v. w = u @ v \<and> c # u \<in> lang r \<and> v \<in> lang s"
    then obtain u v where "w = u @ v" "c # u \<in> lang r" "v \<in> lang s" by blast
    then have "c # w = (c # u) @ v \<and> c # u \<in> lang r \<and> v \<in> lang s" by simp
    then show ?thesis unfolding lang.simps by blast
  next
    assume "[] \<in> lang r \<and> c # w \<in> lang s"
    then have "c # w = [] @ (c # w) \<and> [] \<in> lang r \<and> c # w \<in> lang s" by simp
    then show ?thesis unfolding lang.simps by blast
  qed
qed

lemma lang_deriv: "w \<in> lang (deriv c r) \<longleftrightarrow> c # w \<in> lang r"
proof (induction r arbitrary: w)
  case (Concat r s)
  have "w \<in> lang (deriv c (Concat r s)) \<longleftrightarrow>
          (\<exists>u v. w = u @ v \<and> c # u \<in> lang r \<and> v \<in> lang s) \<or> ([] \<in> lang r \<and> c # w \<in> lang s)"
    using Concat by (auto simp: nullable_iff)
  then show ?case by (simp only: lang_Concat_Cons)
next
  case (Star r)
  then show ?case by (auto simp: star_of_cons_iff)
qed auto

lemma MatchString_iff_lang: "MatchString r w \<longleftrightarrow> w \<in> lang r"
  by (induction w arbitrary: r) (simp_all add: nullable_iff lang_deriv)

lemma star_of_Class:
  "star_of (lang (Class rs)) w \<longleftrightarrow> list_all (in_class rs) w"
proof
  assume "star_of (lang (Class rs)) w"
  then show "list_all (in_class rs) w"
    by (induction rule: star_of.induct) auto
next
  assume "list_all (in_class rs) w"
  then show "star_of (lang (Class rs)) w"
  proof (induction w)
    case Nil
    show ?case by (rule star_nil)
  next
    case (Cons c w)
    then have "[c] \<in> lang (Class rs)" "star_of (lang (Class rs)) w" by auto
    then have "star_of (lang (Class rs)) ([c] @ w)" by (intro star_app) auto
    then show ?case by simp
  qed
qed

lemma lang_Star_Class: "lang (Star (Class rs)) = {w. list_all (in_class rs) w}"
  by (auto simp del: lang.simps(3) simp add: star_of_Class)

lemma lang_Concat_Class:
  "lang (Concat (Class rs) s) = {c # v | c v. in_class rs c \<and> v \<in> lang s}"
proof -
  have "c # v = [c] @ v" for c :: char and v
    by simp
  then show ?thesis
    by (auto, blast)
qed

lemma lang_Plus_Class:
  "lang (Plus (Class rs)) = {w. w \<noteq> [] \<and> list_all (in_class rs) w}"
  unfolding Plus_def lang_Concat_Class lang_Star_Class
  by (auto simp: neq_Nil_conv)

lemma lang_AtLeast2_Class:
  "lang (AtLeast2 (Class rs)) = {w. 2 \<le> length w \<and> list_all (in_class rs) w}"
proof -
  have "2 \<le> length w \<longleftrightarrow> (\<exists>a b v. w = a # b # v)" for w :: string
    by (cases w; cases "tl w") auto
  then show ?thesis
    unfolding AtLeast2_def lang_Concat_Class lang_Star_Class
    by auto
qed

lemma lang_Lit: "lang (Lit c) = {[c]}"
  by (auto simp: Lit_def)

lemma lang_emailRegex:
  "lang emailRegex =
     {l @ ''@'' @ d @ ''.'' @ t | l d t.
        l \<noteq> [] \<and> list_all (in_class local_class) l \<and>
        d \<noteq> [] \<and> list_all (in_class domain_class) d \<and>
        2 \<le> length t \<and> list_all (in_class letter_class) t}"
  unfolding emailRegex_def lang.simps(5) lang_Plus_Class lang_AtLeast2_Class lang_Lit
  by (simp, blast)


section \<open>Claims on request validation\<close>

text \<open>
  Claim C8. \<^verbatim>\<open>Validate\<close> on a \<^verbatim>\<open>RegisterRequest\<close> checks six rules in the order: email
  non-empty, email in the language of the pattern
  \<^verbatim>\<open>^[A-Za-z0-9._%+-]+@[A-Za-z0-9.-]+\.[A-Za-z]{2,}$\<close>, username non-empty, username of
  length at least 3, password non-empty, password of length at least 6. Its result is the
  message of the first rule violated in that order and nothing else; it succeeds exactly
  when all six rules hold; the six messages are pairwise distinct.
\<close>

theorem Validate_first_violation:
  "Validate r = first_violation register_rules r \<and>
   (Validate r = None \<longleftrightarrow>
      reg_Email r \<noteq> [] \<and> reg_Email r \<in> lang emailRegex \<and>
      reg_Username r \<noteq> [] \<and> 3 \<le> length (reg_Username r) \<and>
      reg_Password r \<noteq> [] \<and> 6 \<le> length (reg_Password r)) \<and>
   distinct (map snd register_rules)"
  by (simp add: Validate_def register_rules_def isValidEmail_def MatchString_iff_lang not_less)

theorem Validate_first_violation_witness:
  "Validate register_req = None
   \<and> first_violation register_rules register_req = None
   \<and> Validate (register_req\<lparr>reg_Email := ''a@b'', reg_Username := ''ab''\<rparr>) = Some ''invalid email format''
   \<and> first_violation register_rules (register_req\<lparr>reg_Email := ''a@b'', reg_Username := ''ab''\<rparr>)
       = Some ''invalid email format''"
proof -
  have "Validate register_req = None"
    unfolding register_req_def by code_simp
  moreover have "Validate (register_req\<lparr>reg_Email := ''a@b'', reg_Username := ''ab''\<rparr>) = Some ''invalid email format''"
    unfolding register_req_def by code_simp
  ultimately show ?thesis
    using Validate_first_violation [of register_req]
      Validate_first_violation [of "register_req\<lparr>reg_Email := ''a@b'', reg_Username := ''ab''\<rparr>"]
    by simp
qed

text \<open>Two runs: the specification's example payload, and a payload violating rules 2 to 6.\<close>

lemma Validate_example:
  "Validate \<lparr>reg_Email = ''a@b.com'', reg_Username = ''abc'', reg_Password = ''secret1'',
             reg_FirstName = [], reg_LastName = []\<rparr> = None"
  by code_simp

lemma Validate_example2:
  "Validate \<lparr>reg_Email = ''a@b.c'', reg_Username = '''', reg_Password = '''',
             reg_FirstName = [], reg_LastName = []\<rparr> = Some ''invalid email format''"
  by code_simp


section \<open>Path identifiers\<close>

lemma parse_digits_digits: "parse_digits n s = Some v \<Longrightarrow> list_all is_digit s"
  by (induction s arbitrary: n)
     (auto simp: digit_value_def is_digit_def split: option.splits if_splits)

lemma Atoi_Some_decimal_syntax:
  "Atoi s = Some v \<Longrightarrow> decimal_syntax s \<and> - (2 ^ 63) \<le> v \<and> v < 2 ^ 63"
  by (auto simp: Atoi_def decimal_syntax_def Let_def
           split: prod.splits option.splits if_splits dest: parse_digits_digits)

text \<open>Whatever is not an optionally signed run of decimal digits is refused.\<close>

lemma not_decimal_syntax_Atoi: "\<not> decimal_syntax s \<Longrightarrow> Atoi s = None"
  using Atoi_Some_decimal_syntax by (cases "Atoi s") auto

lemma Atoi_examples:
  "Atoi ''42'' = Some 42" "Atoi ''-7'' = Some (- 7)" "Atoi ''+15'' = Some 15"
  "Atoi ''me'' = None" "Atoi '''' = None" "Atoi ''-'' = None" "Atoi ''1_000'' = None"
  "Atoi ''12a'' = None"
  "Atoi ''9223372036854775807'' = Some 9223372036854775807"
  "Atoi ''9223372036854775808'' = None"
  "Atoi ''-9223372036854775808'' = Some (- 9223372036854775808)"
  by code_simp+

text \<open>
  Claim C10. When the path variable \<^verbatim>\<open>{id}\<close> of \<^verbatim>\<open>/api/users/{id}\<close> is refused by
  \<^verbatim>\<open>strconv.Atoi\<close> (as every string that is not a decimal integer is, by
  \<open>not_decimal_syntax_Atoi\<close>), GET, PUT and DELETE answer 400 with the body
  \<^verbatim>\<open>{"error":"Invalid user ID"}\<close>, whatever the authenticated identity, the request body,
  the store's contents and its availability are; PUT and DELETE leave the store as it was.
\<close>

theorem invalid_path_id_400:
  assumes "Atoi idstr = None"
  shows "GetUser fault st idstr =
           \<lparr>status = 400, body = JObject [(''error'', JString ''Invalid user ID'')]\<rparr>
       \<and> UpdateUser fault db_now st ctx idstr reqbody =
           (\<lparr>status = 400, body = JObject [(''error'', JString ''Invalid user ID'')]\<rparr>, st)
       \<and> DeleteUser fault st ctx idstr =
           (\<lparr>status = 400, body = JObject [(''error'', JString ''Invalid user ID'')]\<rparr>, st)"
  using assms
  by (simp add: GetUser_def UpdateUser_def DeleteUser_def error_response_def
        ErrorResponse_json_def)

theorem invalid_path_id_400_witness:
  "Atoi ''me'' = None
   \<and> GetUser False store1 ''me'' =
        \<lparr>status = 400, body = JObject [(''error'', JString ''Invalid user ID'')]\<rparr>
   \<and> UpdateUser False 5000 store1 (Some 2) ''me'' None =
        (\<lparr>status = 400, body = JObject [(''error'', JString ''Invalid user ID'')]\<rparr>, store1)
   \<and> DeleteUser False store1 (Some 2) ''me'' =
        (\<lparr>status = 400, body = JObject [(''error'', JString ''Invalid user ID'')]\<rparr>, store1)"
proof -
  have h: "Atoi ''me'' = None" by code_simp
  show ?thesis
    using h invalid_path_id_400 [OF h, where fault = False and st = store1
        and db_now = 5000 and ctx = "Some 2" and reqbody = None]
    by simp
qed


section \<open>Ownership\<close>

text \<open>
  Claim C5. A PUT or DELETE on \<^verbatim>\<open>/api/users/{id}\<close> whose path id is the integer \<open>i\<close>,
  made under an authenticated identity other than \<open>i\<close> (or under none), is answered
  403 whatever the request body is, a body that does not decode included, and the store
  is left as it was.
\<close>

theorem other_identity_403:
  assumes "Atoi idstr = Some i" and "ctx \<noteq> Some i"
  shows "UpdateUser fault db_now st ctx idstr reqbody =
           (\<lparr>status = 403,
             body = JObject [(''error'', JString ''You can only update your own profile'')]\<rparr>, st)
       \<and> DeleteUser fault st ctx idstr =
           (\<lparr>status = 403,
             body = JObject [(''error'', JString ''You can only delete your own account'')]\<rparr>, st)"
  using assms
  by (simp add: UpdateUser_def DeleteUser_def error_response_def ErrorResponse_json_def)

theorem other_identity_403_witness:
  "Atoi ''1'' = Some 1 \<and> Some 2 \<noteq> Some (1::int)
   \<and> UpdateUser False 5000 store1 (Some 2) ''1'' None =
        (\<lparr>status = 403,
          body = JObject [(''error'', JString ''You can only update your own profile'')]\<rparr>, store1)
   \<and> DeleteUser False store1 (Some 2) ''1'' =
        (\<lparr>status = 403,
          body = JObject [(''error'', JString ''You can only delete your own account'')]\<rparr>, store1)"
proof -
  have h: "Atoi ''1'' = Some 1" by code_simp
  have d: "Some 2 \<noteq> Some (1::int)" by simp
  show ?thesis
    using h other_identity_403 [OF h d, where fault = False and st = store1
        and db_now = 5000 and reqbody = None]
    by simp
qed


section \<open>Updating a user\<close>

lemma update_row_frame:
  "row_id (update_row t f l i r) = row_id r"
  "row_email (update_row t f l i r) = row_email r"
  "row_username (update_row t f l i r) = row_username r"
  "row_password_hash (update_row t f l i r) = row_password_hash r"
  "row_created_at (update_row t f l i r) = row_created_at r"
  by (simp_all add: update_row_def)

lemma UpdateUser_store:
  "snd (UpdateUser fault t st ctx idstr reqbody) = st \<or>
   (\<exists>req i. reqbody = Some req \<and> Atoi idstr = Some i \<and> ctx = Some i \<and> \<not> fault \<and>
      snd (UpdateUser fault t st ctx idstr reqbody) =
        st\<lparr>users_rows :=
             map (update_row t (upd_FirstName req) (upd_LastName req) i) (users_rows st)\<rparr>)"
  by (auto simp: UpdateUser_def update_names_def Let_def
           split: option.splits prod.splits sum.splits)

lemma update_row_coalesce:
  "update_row t f l i r =
     (if row_id r = i
      then r\<lparr>row_first_name := (if f = [] then row_first_name r else Some f),
             row_last_name := (if l = [] then row_last_name r else Some l),
             row_updated_at := t\<rparr>
      else r)"
  by (simp add: update_row_def NULLIF_def COALESCE_def)

lemma scan_user_fields:
  "scan_user r = Inr u \<Longrightarrow>
     ID u = row_id r \<and> Email u = row_email r \<and> Username u = row_username r \<and>
     PasswordHash u = [] \<and> row_first_name r = Some (FirstName u) \<and>
     row_last_name r = Some (LastName u) \<and>
     CreatedAt u = row_created_at r \<and> UpdatedAt u = row_updated_at r"
  by (auto simp: scan_user_def split: option.splits)

lemma scan_first_Inr:
  "scan_first scan rs = Inr u \<Longrightarrow> \<exists>r rest. rs = r # rest \<and> scan r = Inr u"
  by (cases rs) (auto simp: scan_first_def)

lemma filter_map_update_row_hd:
  assumes "filter (\<lambda>r. row_id r = i) (map (update_row t f l i) rows) = r' # rest"
  shows "\<exists>r. r \<in> set rows \<and> row_id r = i \<and> r' = update_row t f l i r"
proof -
  have "r' \<in> set (filter (\<lambda>r. row_id r = i) (map (update_row t f l i) rows))"
    using assms by simp
  then show ?thesis
    by (auto simp: update_row_def)
qed

text \<open>What a successful update (status 200) has done, and what it answers.\<close>

lemma UpdateUser_ok_effect:
  assumes "UpdateUser fault db_now st ctx idstr (Some req) = (resp, st')"
    and "status resp = 200"
  shows "\<exists>i u. Atoi idstr = Some i \<and> ctx = Some i
      \<and> users_rows st' =
          map (\<lambda>r. if row_id r = i
                    then r\<lparr>row_first_name :=
                             (if upd_FirstName req = [] then row_first_name r
                              else Some (upd_FirstName req)),
                           row_last_name :=
                             (if upd_LastName req = [] then row_last_name r
                              else Some (upd_LastName req)),
                           row_updated_at := db_now\<rparr>
                    else r)
            (users_rows st)
      \<and> body resp = User_json u \<and> ID u = i \<and> UpdatedAt u = db_now
      \<and> (upd_FirstName req \<noteq> [] \<longrightarrow> FirstName u = upd_FirstName req)
      \<and> (upd_LastName req \<noteq> [] \<longrightarrow> LastName u = upd_LastName req)"
proof -
  from assms obtain i where i: "Atoi idstr = Some i" "ctx = Some i"
    by (auto simp: UpdateUser_def error_response_def split: option.splits if_splits)
  let ?f = "upd_FirstName req" and ?l = "upd_LastName req"
  let ?rows = "map (update_row db_now ?f ?l i) (users_rows st)"
  from assms i have nf: "\<not> fault"
    by (auto simp: UpdateUser_def update_names_def error_response_def)
  with assms i obtain u where
    u: "scan_first scan_user (filter (\<lambda>r. row_id r = i) ?rows) = Inr u"
    and st': "st' = st\<lparr>users_rows := ?rows\<rparr>" and resp: "resp = ok_response (User_json u)"
    by (auto simp: UpdateUser_def update_names_def Let_def error_response_def split: sum.splits)
  from u obtain r' rest where r': "filter (\<lambda>r. row_id r = i) ?rows = r' # rest" "scan_user r' = Inr u"
    using scan_first_Inr by blast
  from r'(1) obtain r where r: "r \<in> set (users_rows st)" "row_id r = i" "r' = update_row db_now ?f ?l i r"
    using filter_map_update_row_hd by blast
  have "ID u = i \<and> UpdatedAt u = db_now
      \<and> (?f \<noteq> [] \<longrightarrow> FirstName u = ?f) \<and> (?l \<noteq> [] \<longrightarrow> LastName u = ?l)"
    using scan_user_fields [OF r'(2)] r by (auto simp: update_row_coalesce)
  moreover have "users_rows st' = map (\<lambda>r. if row_id r = i
                    then r\<lparr>row_first_name := (if ?f = [] then row_first_name r else Some ?f),
                           row_last_name := (if ?l = [] then row_last_name r else Some ?l),
                           row_updated_at := db_now\<rparr>
                    else r) (users_rows st)"
    using st' by (simp add: update_row_coalesce cong: map_cong)
  ultimately show ?thesis
    using i resp by (auto simp: ok_response_def)
qed

text \<open>Whatever the outcome, a name supplied as the empty string leaves that column as it was.\<close>

lemma UpdateUser_empty_name_kept:
  "upd_FirstName req = [] \<Longrightarrow>
     map row_first_name (users_rows (snd (UpdateUser fault db_now st ctx idstr (Some req))))
       = map row_first_name (users_rows st)"
  "upd_LastName req = [] \<Longrightarrow>
     map row_last_name (users_rows (snd (UpdateUser fault db_now st ctx idstr (Some req))))
       = map row_last_name (users_rows st)"
  using UpdateUser_store [of fault db_now st ctx idstr "Some req"]
  by (auto simp: update_row_coalesce)

text \<open>
  An update does succeed whenever the store does not fail, the caller owns the path id,
  a row of that id exists and neither name of the first such row is \<^verbatim>\<open>NULL\<close> after the
  statement.
\<close>

lemma UpdateUser_succeeds:
  assumes "Atoi idstr = Some i" and "ctx = Some i" and "\<not> fault"
    and "filter (\<lambda>r. row_id r = i) (users_rows st) = r # rest"
    and "upd_FirstName req \<noteq> [] \<or> row_first_name r \<noteq> None"
    and "upd_LastName req \<noteq> [] \<or> row_last_name r \<noteq> None"
  shows "status (fst (UpdateUser fault db_now st ctx idstr (Some req))) = 200"
proof -
  let ?g = "update_row db_now (upd_FirstName req) (upd_LastName req) i"
  have "filter (\<lambda>r. row_id r = i) (map ?g (users_rows st))
      = map ?g (filter (\<lambda>r. row_id r = i) (users_rows st))"
    by (simp add: filter_map comp_def update_row_def)
  then have "filter (\<lambda>r. row_id r = i) (map ?g (users_rows st)) = ?g r # map ?g rest"
    using assms(4) by simp
  moreover have "r \<in> set (filter (\<lambda>r. row_id r = i) (users_rows st))"
    using assms(4) by simp
  then have "row_id r = i"
    by simp
  then have "\<exists>u. scan_user (?g r) = Inr u"
    using assms(5,6) by (auto simp: scan_user_def update_row_coalesce split: option.splits)
  ultimately show ?thesis
    using assms(1-3)
    by (auto simp: UpdateUser_def update_names_def Let_def scan_first_def ok_response_def)
qed

text \<open>
  Whenever the statement is executed (the caller owns the path id and the store does not
  fail), the table is rewritten, whatever the response then is.
\<close>

lemma UpdateUser_executed_effect:
  assumes "Atoi idstr = Some i" and "ctx = Some i" and "\<not> fault"
  shows "users_rows (snd (UpdateUser fault db_now st ctx idstr (Some req))) =
           map (\<lambda>r. if row_id r = i
                    then r\<lparr>row_first_name :=
                             (if upd_FirstName req = [] then row_first_name r
                              else Some (upd_FirstName req)),
                           row_last_name :=
                             (if upd_LastName req = [] then row_last_name r
                              else Some (upd_LastName req)),
                           row_updated_at := db_now\<rparr>
                    else r)
            (users_rows st)"
  using assms
  by (auto simp: UpdateUser_def update_names_def Let_def update_row_coalesce
           split: sum.splits cong: map_cong)

text \<open>
  Claim C3. For every update call: a first name supplied as the empty string leaves
  the stored \<^verbatim>\<open>first_name\<close> of every row as it was, and likewise the last name. Whenever
  the caller owns the path id \<open>i\<close> and the store does not fail, the table after the call
  is the table before it with every row of id \<open>i\<close> changed as follows: \<^verbatim>\<open>first_name\<close>
  keeps its stored value when the supplied first name is the empty string and becomes
  the supplied value otherwise; likewise \<^verbatim>\<open>last_name\<close>; \<^verbatim>\<open>updated_at\<close> becomes the
  store's current time whatever was supplied, two empty names included. If moreover a
  row of id \<open>i\<close> exists and neither name of the first such row is \<^verbatim>\<open>NULL\<close> after the
  statement, the update succeeds: the status is 200. Conversely every update answered
  200 has rewritten the table in that way, and its response's user carries the path id,
  the new \<^verbatim>\<open>updated_at\<close> and each supplied non-empty name.
\<close>

theorem UpdateUser_coalesce:
  assumes "UpdateUser fault db_now st ctx idstr (Some req) = (resp, st')"
  shows "(upd_FirstName req = [] \<longrightarrow>
            map row_first_name (users_rows st') = map row_first_name (users_rows st))
       \<and> (upd_LastName req = [] \<longrightarrow>
            map row_last_name (users_rows st') = map row_last_name (users_rows st))
       \<and> (Atoi idstr = Some i \<and> ctx = Some i \<and> \<not> fault \<longrightarrow>
            users_rows st' =
                  map (\<lambda>r. if row_id r = i
                            then r\<lparr>row_first_name :=
                                     (if upd_FirstName req = [] then row_first_name r
                                      else Some (upd_FirstName req)),
                                   row_last_name :=
                                     (if upd_LastName req = [] then row_last_name r
                                      else Some (upd_LastName req)),
                                   row_updated_at := db_now\<rparr>
                            else r)
                    (users_rows st))
       \<and> (Atoi idstr = Some i \<and> ctx = Some i \<and> \<not> fault
            \<and> filter (\<lambda>r. row_id r = i) (users_rows st) = r0 # rest
            \<and> (upd_FirstName req \<noteq> [] \<or> row_first_name r0 \<noteq> None)
            \<and> (upd_LastName req \<noteq> [] \<or> row_last_name r0 \<noteq> None) \<longrightarrow>
            status resp = 200)
       \<and> (status resp = 200 \<longrightarrow>
            (\<exists>i u. Atoi idstr = Some i \<and> ctx = Some i
              \<and> users_rows st' =
                  map (\<lambda>r. if row_id r = i
                            then r\<lparr>row_first_name :=
                                     (if upd_FirstName req = [] then row_first_name r
                                      else Some (upd_FirstName req)),
                                   row_last_name :=
                                     (if upd_LastName req = [] then row_last_name r
                                      else Some (upd_LastName req)),
                                   row_updated_at := db_now\<rparr>
                            else r)
                    (users_rows st)
              \<and> body resp = User_json u \<and> ID u = i \<and> UpdatedAt u = db_now
              \<and> (upd_FirstName req \<noteq> [] \<longrightarrow> FirstName u = upd_FirstName req)
              \<and> (upd_LastName req \<noteq> [] \<longrightarrow> LastName u = upd_LastName req)))"
proof -
  have fst_snd: "resp = fst (UpdateUser fault db_now st ctx idstr (Some req))"
    "st' = snd (UpdateUser fault db_now st ctx idstr (Some req))"
    using assms by simp_all
  have kept1: "upd_FirstName req = [] \<longrightarrow>
      map row_first_name (users_rows st') = map row_first_name (users_rows st)"
    using UpdateUser_empty_name_kept(1) [of req fault db_now st ctx idstr] fst_snd by simp
  have kept2: "upd_LastName req = [] \<longrightarrow>
      map row_last_name (users_rows st') = map row_last_name (users_rows st)"
    using UpdateUser_empty_name_kept(2) [of req fault db_now st ctx idstr] fst_snd by simp
  have executed: "Atoi idstr = Some i \<and> ctx = Some i \<and> \<not> fault \<longrightarrow>
      users_rows st' =
                  map (\<lambda>r. if row_id r = i
                            then r\<lparr>row_first_name :=
                                     (if upd_FirstName req = [] then row_first_name r
                                      else Some (upd_FirstName req)),
                                   row_last_name :=
                                     (if upd_LastName req = [] then row_last_name r
                                      else Some (upd_LastName req)),
                                   row_updated_at := db_now\<rparr>
                            else r)
                    (users_rows st)"
    using UpdateUser_executed_effect [of idstr i ctx fault db_now st req] fst_snd by simp
  have succeeds: "Atoi idstr = Some i \<and> ctx = Some i \<and> \<not> fault
            \<and> filter (\<lambda>r. row_id r = i) (users_rows st) = r0 # rest
            \<and> (upd_FirstName req \<noteq> [] \<or> row_first_name r0 \<noteq> None)
            \<and> (upd_LastName req \<noteq> [] \<or> row_last_name r0 \<noteq> None) \<longrightarrow>
            status resp = 200"
    using UpdateUser_succeeds [of idstr i ctx fault st r0 rest req db_now] fst_snd by simp
  have ok: "status resp = 200 \<longrightarrow>
            (\<exists>i u. Atoi idstr = Some i \<and> ctx = Some i
              \<and> users_rows st' =
                  map (\<lambda>r. if row_id r = i
                            then r\<lparr>row_first_name :=
                                     (if upd_FirstName req = [] then row_first_name r
                                      else Some (upd_FirstName req)),
                                   row_last_name :=
                                     (if upd_LastName req = [] then row_last_name r
                                      else Some (upd_LastName req)),
                                   row_updated_at := db_now\<rparr>
                            else r)
                    (users_rows st)
              \<and> body resp = User_json u \<and> ID u = i \<and> UpdatedAt u = db_now
              \<and> (upd_FirstName req \<noteq> [] \<longrightarrow> FirstName u = upd_FirstName req)
              \<and> (upd_LastName req \<noteq> [] \<longrightarrow> LastName u = upd_LastName req))"
    using UpdateUser_ok_effect [OF assms] by blast
  from kept1 kept2 executed succeeds ok show ?thesis
    by (intro conjI)
qed

text \<open>
  A run: the owner of row 1 supplies an empty first name and the last name
  \<^verbatim>\<open>Pleasance\<close>. The theorem gives the status 200, the first name kept, the last name
  overwritten and \<^verbatim>\<open>updated_at\<close> refreshed.
\<close>

theorem UpdateUser_coalesce_witness:
  "Atoi ''1'' = Some 1
   \<and> filter (\<lambda>r. row_id r = 1) (users_rows store1) = [alice]
   \<and> upd_FirstName rename_req = [] \<and> row_first_name alice = Some ''Alice''
   \<and> upd_LastName rename_req = ''Pleasance'' \<and> row_last_name alice = Some ''Liddell''
   \<and> status (fst (UpdateUser False 5000 store1 (Some 1) ''1'' (Some rename_req))) = 200
   \<and> users_rows (snd (UpdateUser False 5000 store1 (Some 1) ''1'' (Some rename_req)))
       = [alice\<lparr>row_last_name := Some ''Pleasance'', row_updated_at := 5000\<rparr>]
   \<and> map row_first_name
        (users_rows (snd (UpdateUser False 5000 store1 (Some 1) ''1'' (Some rename_req))))
       = [Some ''Alice'']
   \<and> (\<exists>u. body (fst (UpdateUser False 5000 store1 (Some 1) ''1'' (Some rename_req)))
            = User_json u
          \<and> ID u = 1 \<and> UpdatedAt u = 5000 \<and> LastName u = ''Pleasance'')"
proof -
  let ?run = "UpdateUser False 5000 store1 (Some 1) ''1'' (Some rename_req)"
  have run: "?run = (fst ?run, snd ?run)" by simp
  have a: "Atoi ''1'' = Some 1" by code_simp
  have rows: "filter (\<lambda>r. row_id r = 1) (users_rows store1) = [alice]"
    by (simp add: store1_def alice_def)
  have req: "upd_FirstName rename_req = []" "upd_LastName rename_req = ''Pleasance''"
    by (simp_all add: rename_req_def)
  have al: "row_first_name alice = Some ''Alice''" "row_last_name alice = Some ''Liddell''"
    "row_id alice = 1"
    by (simp_all add: alice_def)
  note inst = UpdateUser_coalesce [OF run, where i = 1 and ?r0.0 = alice and rest = "[]"]
  from inst a rows req al have ok: "status (fst ?run) = 200"
    by simp
  from inst a have eff: "users_rows (snd ?run)
      = [alice\<lparr>row_last_name := Some ''Pleasance'', row_updated_at := 5000\<rparr>]"
    by (simp add: req al store1_def)
  from inst req have kept: "map row_first_name (users_rows (snd ?run)) = [Some ''Alice'']"
    by (simp add: store1_def al)
  from inst ok a have "\<exists>u. body (fst ?run) = User_json u
          \<and> ID u = 1 \<and> UpdatedAt u = 5000 \<and> LastName u = ''Pleasance''"
    by (auto simp: req)
  with a rows req al ok eff kept show ?thesis
    by simp
qed

text \<open>
  Claim C4. Whatever an update request is (any path id, identity, body, the body's
  \<^verbatim>\<open>email\<close> and \<^verbatim>\<open>username\<close> included, and whether or not the store fails), every row
  of the table has the same \<^verbatim>\<open>id\<close>, \<^verbatim>\<open>email\<close>, \<^verbatim>\<open>username\<close>, \<^verbatim>\<open>password_hash\<close> and
  \<^verbatim>\<open>created_at\<close> after the request as before it; no row is added or removed, and the
  id sequence is not advanced.
\<close>

theorem UpdateUser_frame:
  "map row_id (users_rows (snd (UpdateUser fault db_now st ctx idstr reqbody)))
     = map row_id (users_rows st)
 \<and> map row_email (users_rows (snd (UpdateUser fault db_now st ctx idstr reqbody)))
     = map row_email (users_rows st)
 \<and> map row_username (users_rows (snd (UpdateUser fault db_now st ctx idstr reqbody)))
     = map row_username (users_rows st)
 \<and> map row_password_hash (users_rows (snd (UpdateUser fault db_now st ctx idstr reqbody)))
     = map row_password_hash (users_rows st)
 \<and> map row_created_at (users_rows (snd (UpdateUser fault db_now st ctx idstr reqbody)))
     = map row_created_at (users_rows st)
 \<and> users_id_seq (snd (UpdateUser fault db_now st ctx idstr reqbody)) = users_id_seq st"
  using UpdateUser_store [of fault db_now st ctx idstr reqbody]
  by (auto simp: update_row_frame comp_def)

theorem UpdateUser_frame_witness:
  "map row_email (users_rows (snd (UpdateUser False 5000 store1 (Some 1) ''1'' (Some rename_req))))
     = [''alice@example.com'']
   \<and> map row_username (users_rows (snd (UpdateUser False 5000 store1 (Some 1) ''1'' (Some rename_req))))
     = [''alice'']
   \<and> upd_Email rename_req = ''eve@example.com'' \<and> upd_Username rename_req = ''eve''"
  using UpdateUser_frame [of False 5000 store1 "Some 1" "''1''" "Some rename_req"]
  by (simp add: store1_def alice_def rename_req_def)


section \<open>Tokens\<close>

lemma NewNumericDate_add_day: "NewNumericDate (t + 24 * Hour) = NewNumericDate t + 24 * Hour"
proof -
  have "(t + 24 * Hour) mod Second = (t + 86400 * Second) mod Second"
    by (simp add: Hour_def)
  also have "\<dots> = t mod Second"
    by (rule mod_mult_self1)
  finally show ?thesis
    by (simp add: NewNumericDate_def)
qed

text \<open>
  Claim C6, as the code has it. Under a non-empty secret \<^verbatim>\<open>GenerateToken\<close> returns an
  HS256 token for the user id whose \<^verbatim>\<open>ExpiresAt\<close> is the first clock reading, truncated
  to whole seconds, plus 24 hours, and whose \<^verbatim>\<open>IssuedAt\<close> is the second clock reading
  truncated to whole seconds. Validating that token under the same secret returns the
  user id at every instant before \<^verbatim>\<open>ExpiresAt\<close> and is refused as expired from
  \<^verbatim>\<open>ExpiresAt\<close> on. (So the limit is \<^verbatim>\<open>IssuedAt\<close> plus 24 hours exactly when the two
  readings fall in the same second.)
\<close>

theorem token_valid_until_expiry:
  assumes "secretKey \<noteq> []"
  shows "\<exists>claims sig.
           GenerateToken hmac secretKey now1 now2 userID = Inr (Compact HS256 claims sig)
         \<and> UserID claims = userID
         \<and> ExpiresAt claims = Some (NewNumericDate now1 + 24 * Hour)
         \<and> IssuedAt claims = Some (NewNumericDate now2)
         \<and> ValidateToken hmac secretKey now (Compact HS256 claims sig) =
             (if now < NewNumericDate now1 + 24 * Hour then Inr userID else Inl TokenExpired)"
  using assms
  by (simp add: GenerateToken_def ValidateToken_def Let_def NewNumericDate_add_day)

theorem token_valid_until_expiry_witness:
  "''s3cret'' \<noteq> []
   \<and> GenerateToken toy_mac ''s3cret'' 1500000000 1600000000 42 =
       Inr (Compact HS256
              \<lparr>UserID = 42, ExpiresAt = Some 86401000000000, NotBefore = None,
               IssuedAt = Some 1000000000\<rparr> ''terc3s'')
   \<and> ValidateToken toy_mac ''s3cret'' 86400999999999
        (Compact HS256
              \<lparr>UserID = 42, ExpiresAt = Some 86401000000000, NotBefore = None,
               IssuedAt = Some 1000000000\<rparr> ''terc3s'') = Inr 42
   \<and> ValidateToken toy_mac ''s3cret'' 86401000000000
        (Compact HS256
              \<lparr>UserID = 42, ExpiresAt = Some 86401000000000, NotBefore = None,
               IssuedAt = Some 1000000000\<rparr> ''terc3s'') = Inl TokenExpired"
proof -
  have h: "''s3cret'' \<noteq> []" by simp
  have g: "GenerateToken toy_mac ''s3cret'' 1500000000 1600000000 42 =
       Inr (Compact HS256
              \<lparr>UserID = 42, ExpiresAt = Some 86401000000000, NotBefore = None,
               IssuedAt = Some 1000000000\<rparr> ''terc3s'')"
    by (simp add: GenerateToken_def toy_mac_def NewNumericDate_def Hour_def Second_def Let_def)
  have t: "NewNumericDate 1500000000 + 24 * Hour = 86401000000000"
    by (simp add: NewNumericDate_def Hour_def Second_def)
  show ?thesis
    using h g t
      token_valid_until_expiry [OF h, where hmac = toy_mac and ?now1.0 = 1500000000
        and ?now2.0 = 1600000000 and userID = 42 and now = 86400999999999]
      token_valid_until_expiry [OF h, where hmac = toy_mac and ?now1.0 = 1500000000
        and ?now2.0 = 1600000000 and userID = 42 and now = 86401000000000]
    by auto
qed

text \<open>
  Claim C6 as stated fails. When the first clock reading is 0.999999000 s and the
  second 1.000000100 s, the token carries \<^verbatim>\<open>IssuedAt\<close> = 1 s and \<^verbatim>\<open>ExpiresAt\<close> = 86400 s;
  at 86400.999999999 s, which is before \<^verbatim>\<open>IssuedAt\<close> plus 24 hours, validation is
  refused as expired.
\<close>

theorem token_rejected_before_issuedAt_plus_24h:
  "GenerateToken toy_mac ''s3cret'' 999999000 1000000100 42 =
       Inr (Compact HS256
              \<lparr>UserID = 42, ExpiresAt = Some 86400000000000, NotBefore = None,
               IssuedAt = Some 1000000000\<rparr> ''terc3s'')
   \<and> (86400999999999 :: int) < 1000000000 + 24 * Hour
   \<and> ValidateToken toy_mac ''s3cret'' 86400999999999
        (Compact HS256
              \<lparr>UserID = 42, ExpiresAt = Some 86400000000000, NotBefore = None,
               IssuedAt = Some 1000000000\<rparr> ''terc3s'') = Inl TokenExpired"
  by (simp add: GenerateToken_def ValidateToken_def toy_mac_def NewNumericDate_def Hour_def
        Second_def Let_def)

section \<open>What the responses serialise\<close>

lemma json_keys_User_json: "set (json_keys (User_json u)) \<subseteq> user_keys"
  by (auto simp: User_json_def omitempty_def user_keys_def)

lemma json_keys_users: "set (json_keys (JArray (map User_json us))) \<subseteq> user_keys"
  using json_keys_User_json by auto

lemma json_keys_error: "set (json_keys (body (error_response code msg))) = {''error''}"
  by (simp add: error_response_def ErrorResponse_json_def)

lemma json_keys_login:
  "set (json_keys (LoginResponse_json t u)) \<subseteq> {''token'', ''user''} \<union> user_keys"
  using json_keys_User_json [of u] by (auto simp: LoginResponse_json_def)

lemma GetUsers_keys: "set (json_keys (body (GetUsers fault st))) \<subseteq> response_keys"
  using json_keys_users
  by (cases fault) (auto simp: GetUsers_def response_keys_def ok_response_def json_keys_error
         simp del: json_keys.simps)

lemma GetUser_keys: "set (json_keys (body (GetUser fault st idstr))) \<subseteq> response_keys"
  using json_keys_User_json
  by (auto simp: GetUser_def response_keys_def ok_response_def json_keys_error
        split: option.splits sum.splits)

lemma GetCurrentUser_keys: "set (json_keys (body (GetCurrentUser fault st ctx))) \<subseteq> response_keys"
  using json_keys_User_json
  by (auto simp: GetCurrentUser_def response_keys_def ok_response_def json_keys_error
        split: option.splits sum.splits)

lemma UpdateUser_keys:
  "set (json_keys (body (fst (UpdateUser fault db_now st ctx idstr reqbody)))) \<subseteq> response_keys"
  using json_keys_User_json
  by (auto simp: UpdateUser_def response_keys_def ok_response_def json_keys_error
        split: option.splits sum.splits prod.splits)

lemma Register_keys:
  "set (json_keys (body (fst (Register HashPassword hmac secretKey now1 now2 fault db_now st reqbody))))
     \<subseteq> response_keys"
  using json_keys_login
  by (auto simp: Register_def response_keys_def json_keys_error
        split: option.splits sum.splits prod.splits)

lemma Login_keys:
  "set (json_keys (body (Login CheckPassword hmac secretKey now1 now2 fault st reqbody)))
     \<subseteq> response_keys"
  using json_keys_login
  by (auto simp: Login_def response_keys_def json_keys_error ok_response_def
        split: option.splits sum.splits prod.splits)

lemma password_hash_not_response_key: "''password_hash'' \<notin> response_keys" "''PasswordHash'' \<notin> response_keys"
  by (simp_all add: response_keys_def user_keys_def)

text \<open>
  Claim C7. The JSON object written for a \<^verbatim>\<open>User\<close> does not depend on its password hash
  and has no \<^verbatim>\<open>password_hash\<close> key; and no response body of register, login, list, get
  by id, me or update has a \<^verbatim>\<open>password_hash\<close> key at any depth, whatever the request,
  the store and the outcome are.
\<close>

theorem no_password_hash_in_json:
  "User_json (u\<lparr>PasswordHash := h\<rparr>) = User_json u
 \<and> ''password_hash'' \<notin> set (json_keys (User_json u))
 \<and> ''password_hash'' \<notin>
      set (json_keys (body (fst (Register HashPassword hmac secretKey now1 now2 fault db_now st regbody))))
 \<and> ''password_hash'' \<notin>
      set (json_keys (body (Login CheckPassword hmac secretKey now1 now2 fault st loginbody)))
 \<and> ''password_hash'' \<notin> set (json_keys (body (GetUsers qfault st)))
 \<and> ''password_hash'' \<notin> set (json_keys (body (GetUser fault st idstr)))
 \<and> ''password_hash'' \<notin> set (json_keys (body (GetCurrentUser fault st ctx)))
 \<and> ''password_hash'' \<notin> set (json_keys (body (fst (UpdateUser fault db_now st ctx idstr updbody))))"
proof -
  have "User_json (u\<lparr>PasswordHash := h\<rparr>) = User_json u"
    by (simp add: User_json_def)
  moreover have "''password_hash'' \<notin> set (json_keys (User_json u))"
    using json_keys_User_json [of u] by (auto simp: user_keys_def)
  ultimately show ?thesis
    using Register_keys [of HashPassword hmac secretKey now1 now2 fault db_now st regbody]
      Login_keys [of CheckPassword hmac secretKey now1 now2 fault st loginbody]
      GetUsers_keys [of qfault st] GetUser_keys [of fault st idstr]
      GetCurrentUser_keys [of fault st ctx]
      UpdateUser_keys [of fault db_now st ctx idstr updbody]
      password_hash_not_response_key(1)
    by blast
qed

theorem no_password_hash_in_json_witness:
  "Login toy_check toy_mac ''s3cret'' 1500000000 1600000000 False store1
      (Some \<lparr>login_Email = ''alice@example.com'', login_Password = ''hsah''\<rparr>)
    = ok_response (LoginResponse_json
        (Compact HS256 \<lparr>UserID = 1, ExpiresAt = Some 86401000000000, NotBefore = None,
                        IssuedAt = Some 1000000000\<rparr> ''terc3s'')
        (alice_user\<lparr>PasswordHash := ''$2a$10$hash''\<rparr>))
   \<and> json_keys (body (Login toy_check toy_mac ''s3cret'' 1500000000 1600000000 False store1
      (Some \<lparr>login_Email = ''alice@example.com'', login_Password = ''hsah''\<rparr>)))
     = [''token'', ''user'', ''id'', ''email'', ''username'', ''first_name'', ''last_name'',
        ''created_at'', ''updated_at'']
   \<and> ''password_hash'' \<notin> set (json_keys (body (Login toy_check toy_mac ''s3cret'' 1500000000 1600000000 False store1
      (Some \<lparr>login_Email = ''alice@example.com'', login_Password = ''hsah''\<rparr>))))"
proof -
  have run: "Login toy_check toy_mac ''s3cret'' 1500000000 1600000000 False store1
      (Some \<lparr>login_Email = ''alice@example.com'', login_Password = ''hsah''\<rparr>)
    = ok_response (LoginResponse_json
        (Compact HS256 \<lparr>UserID = 1, ExpiresAt = Some 86401000000000, NotBefore = None,
                        IssuedAt = Some 1000000000\<rparr> ''terc3s'')
        (alice_user\<lparr>PasswordHash := ''$2a$10$hash''\<rparr>))"
    by (simp add: Login_def select_by_email_def scan_first_def scan_user_with_hash_def
          scan_user_def store1_def alice_def toy_check_def GenerateToken_def toy_mac_def
          NewNumericDate_def Hour_def Second_def Let_def alice_user_def)
  have keys: "json_keys (body (ok_response (LoginResponse_json t (alice_user\<lparr>PasswordHash := ''$2a$10$hash''\<rparr>))))
     = [''token'', ''user'', ''id'', ''email'', ''username'', ''first_name'', ''last_name'',
        ''created_at'', ''updated_at'']" for t
    by (simp add: ok_response_def LoginResponse_json_def User_json_def omitempty_def alice_user_def)
  show ?thesis
    using run keys
      no_password_hash_in_json [where CheckPassword = toy_check and hmac = toy_mac
        and secretKey = "''s3cret''" and ?now1.0 = 1500000000 and ?now2.0 = 1600000000
        and fault = False and st = store1
        and loginbody = "Some \<lparr>login_Email = ''alice@example.com'', login_Password = ''hsah''\<rparr>"]
    by simp
qed

section \<open>Listing users\<close>

lemma scan_loop_eq:
  "scan_loop acc rows = acc @ map (projr \<circ> scan_user) (filter (\<lambda>r. \<not> isl (scan_user r)) rows)"
  by (induction rows arbitrary: acc) (auto split: sum.splits)

lemma scan_user_CreatedAt:
  "\<not> isl (scan_user r) \<Longrightarrow> CreatedAt (projr (scan_user r)) = row_created_at r"
  by (auto simp: scan_user_def split: option.splits)

lemma sorted_select_all_ordered:
  "sorted_wrt (\<lambda>a b. row_created_at b \<le> row_created_at a) (select_all_ordered st)"
proof -
  have "sorted (map (\<lambda>r. - row_created_at r) (select_all_ordered st))"
    unfolding select_all_ordered_def by (rule sorted_sort_key)
  then show ?thesis
    by (simp add: sorted_wrt_map)
qed

lemma mset_select_all_ordered: "mset (select_all_ordered st) = mset (users_rows st)"
  by (simp add: select_all_ordered_def)

lemma sorted_scan_loop:
  assumes "sorted_wrt (\<lambda>a b. row_created_at b \<le> row_created_at a) rows"
  shows "sorted_wrt (\<lambda>a b. CreatedAt b \<le> CreatedAt a) (scan_loop [] rows)"
proof -
  let ?good = "filter (\<lambda>r. \<not> isl (scan_user r)) rows"
  have "sorted_wrt (\<lambda>a b. row_created_at b \<le> row_created_at a) ?good"
    using assms by (rule sorted_wrt_filter)
  then have "sorted_wrt (\<lambda>a b. CreatedAt (projr (scan_user b)) \<le> CreatedAt (projr (scan_user a))) ?good"
    by (rule sorted_wrt_mono_rel [rotated]) (simp add: scan_user_CreatedAt)
  then show ?thesis
    by (simp add: scan_loop_eq sorted_wrt_map)
qed

lemma mset_scan_loop:
  "mset (scan_loop [] rows) =
     image_mset projr (filter_mset (\<lambda>x. \<not> isl x) (image_mset scan_user (mset rows)))"
  by (induction rows) (auto simp: scan_loop_eq)

text \<open>
  Claim C9. When the query succeeds and its result is read to the end, the list
  operation answers 200 with an array of users that is ordered by \<^verbatim>\<open>created_at\<close>
  descending and holds, each as often as it is stored, exactly the stored rows that scan
  without error: a row that does not decode is left out and the others are still
  returned. On an empty table the answer is 200 with the empty array.
\<close>

theorem GetUsers_listing:
  "\<exists>us. GetUsers NoFault st = \<lparr>status = 200, body = JArray (map User_json us)\<rparr>
      \<and> sorted_wrt (\<lambda>a b. CreatedAt b \<le> CreatedAt a) us
      \<and> mset us =
          image_mset projr
            (filter_mset (\<lambda>x. \<not> isl x) (image_mset scan_user (mset (users_rows st))))
      \<and> GetUsers NoFault (st\<lparr>users_rows := []\<rparr>) = \<lparr>status = 200, body = JArray []\<rparr>"
proof -
  let ?us = "scan_loop [] (select_all_ordered st)"
  have "GetUsers NoFault st = \<lparr>status = 200, body = JArray (map User_json ?us)\<rparr>"
    by (simp add: GetUsers_def ok_response_def)
  moreover have "sorted_wrt (\<lambda>a b. CreatedAt b \<le> CreatedAt a) ?us"
    using sorted_select_all_ordered by (rule sorted_scan_loop)
  moreover have "mset ?us =
      image_mset projr
        (filter_mset (\<lambda>x. \<not> isl x) (image_mset scan_user (mset (users_rows st))))"
    by (simp add: mset_scan_loop mset_select_all_ordered)
  moreover have "GetUsers NoFault (st\<lparr>users_rows := []\<rparr>) = \<lparr>status = 200, body = JArray []\<rparr>"
    by (simp add: GetUsers_def ok_response_def select_all_ordered_def)
  ultimately show ?thesis
    by blast
qed

lemma GetUsers_store3:
  "GetUsers NoFault store3 = \<lparr>status = 200, body = JArray [User_json carol_user, User_json alice_user]\<rparr>"
  by (simp add: GetUsers_def ok_response_def select_all_ordered_def store3_def alice_def bob_def
        carol_def sort_key_def scan_user_def alice_user_def carol_user_def)

theorem GetUsers_listing_witness:
  "GetUsers NoFault store3 =
     \<lparr>status = 200, body = JArray [User_json carol_user, User_json alice_user]\<rparr>
   \<and> (\<exists>us. GetUsers NoFault store3 = \<lparr>status = 200, body = JArray (map User_json us)\<rparr>
          \<and> sorted_wrt (\<lambda>a b. CreatedAt b \<le> CreatedAt a) us
          \<and> mset us =
              image_mset projr
                (filter_mset (\<lambda>x. \<not> isl x) (image_mset scan_user (mset (users_rows store3)))))
   \<and> GetUsers NoFault (store3\<lparr>users_rows := []\<rparr>) = \<lparr>status = 200, body = JArray []\<rparr>"
proof -
  from GetUsers_listing [of store3] obtain us where
    "GetUsers NoFault store3 = \<lparr>status = 200, body = JArray (map User_json us)\<rparr>"
    "sorted_wrt (\<lambda>a b. CreatedAt b \<le> CreatedAt a) us"
    "mset us = image_mset projr
       (filter_mset (\<lambda>x. \<not> isl x) (image_mset scan_user (mset (users_rows store3))))"
    "GetUsers NoFault (store3\<lparr>users_rows := []\<rparr>) = \<lparr>status = 200, body = JArray []\<rparr>"
    by blast
  with GetUsers_store3 show ?thesis
    by blast
qed

text \<open>
  The other two outcomes of the query: a failed query is answered 500; a result that
  breaks off after \<open>n\<close> rows is answered 200 with the users among those \<open>n\<close> rows.
\<close>

lemma GetUsers_faults:
  "GetUsers QueryFails st = error_response 500 ''Failed to fetch users''"
  "GetUsers (BreaksAfter n) st =
     ok_response (JArray (map User_json (scan_loop [] (take n (select_all_ordered st)))))"
  by (simp_all add: GetUsers_def)

section \<open>Absent rows\<close>

text \<open>
  When no row has the identifier, \<^verbatim>\<open>GetUser\<close> answers 404, while \<^verbatim>\<open>GetCurrentUser\<close> and
  \<^verbatim>\<open>UpdateUser\<close>, which do not tell \<^verbatim>\<open>sql.ErrNoRows\<close> from other errors, answer 500.
\<close>

lemma GetCurrentUser_absent:
  assumes "filter (\<lambda>r. row_id r = i) (users_rows st) = []"
  shows "GetCurrentUser fault st (Some i) = error_response 500 ''Failed to fetch user''"
  using assms by (simp add: GetCurrentUser_def select_by_id_def scan_first_def)

lemma GetUser_absent:
  assumes "Atoi idstr = Some i" and "\<not> fault"
    and "filter (\<lambda>r. row_id r = i) (users_rows st) = []"
  shows "GetUser fault st idstr = error_response 404 ''User not found''"
  using assms by (simp add: GetUser_def select_by_id_def scan_first_def)

lemma UpdateUser_absent:
  assumes "Atoi idstr = Some i"
    and "filter (\<lambda>r. row_id r = i) (users_rows st) = []"
  shows "UpdateUser fault db_now st (Some i) idstr (Some req) =
           (error_response 500 ''Failed to update user'', st)"
proof -
  have "map (update_row db_now (upd_FirstName req) (upd_LastName req) i) (users_rows st) = users_rows st"
    using assms(2) by (induction "users_rows st" arbitrary: st) (auto simp: filter_empty_conv update_row_def map_idI)
  then show ?thesis
    using assms by (simp add: UpdateUser_def update_names_def scan_first_def Let_def)
qed

text \<open>
  Claim C1, evaluated. With the only stored user of id 1: GET \<^verbatim>\<open>/api/users/999999\<close> is
  answered 404; GET \<^verbatim>\<open>/api/users/me\<close> under the identity 7 is answered 500; PUT
  \<^verbatim>\<open>/api/users/7\<close> under the identity 7 is answered 500.
\<close>

theorem absent_row_status:
  "GetUser False store1 ''999999'' = error_response 404 ''User not found''
   \<and> GetCurrentUser False store1 (Some 7) = error_response 500 ''Failed to fetch user''
   \<and> UpdateUser False 5000 store1 (Some 7) ''7'' (Some rename_req) =
        (error_response 500 ''Failed to update user'', store1)"
proof -
  have a: "Atoi ''999999'' = Some 999999" "Atoi ''7'' = Some 7" by code_simp+
  show ?thesis
    by (simp add: GetUser_def GetCurrentUser_def UpdateUser_def a select_by_id_def
          update_names_def update_row_def scan_first_def store1_def alice_def Let_def)
qed


section \<open>Registration when the store fails\<close>

text \<open>Every failure of the \<^verbatim>\<open>INSERT\<close>, a uniqueness conflict or not, is answered 409.\<close>

lemma Register_insert_failure:
  assumes "Validate req = None" and "HashPassword (reg_Password req) = Some h" and "fault"
  shows "Register HashPassword hmac secretKey now1 now2 fault db_now st (Some req)
       = (error_response 409 ''Email or username already exists'', st)"
  using assms by (simp add: Register_def insert_user_def)

text \<open>
  Claim C2, evaluated. A valid registration payload whose \<^verbatim>\<open>INSERT\<close> the store fails for
  an internal reason, no uniqueness being violated, is answered 409 with the message
  \<^verbatim>\<open>Email or username already exists\<close>.
\<close>

theorem Register_storage_failure_status:
  "Validate register_req = None
   \<and> Register toy_hash toy_mac ''s3cret'' 1500000000 1600000000 True 5000 store1 (Some register_req)
       = (error_response 409 ''Email or username already exists'', store1)"
proof -
  have v: "Validate register_req = None"
    unfolding register_req_def by code_simp
  show ?thesis
    by (simp add: Register_def v toy_hash_def insert_user_def)
qed

end
